theory Spec2Isabelle
  imports Complex_Main
begin

section \<open>Numbers and the angle primitives\<close>

text \<open>
  The program is JavaScript; every quantity below (headings, pitches, offsets, the
  smoothing factor) is a JavaScript number. They are modelled as exact reals: the
  development is about the arithmetic the code writes down, not about rounding.
  \<^verbatim>\<open>null\<close> is kept apart as \<open>None\<close> wherever the source can see it.
\<close>

text \<open>
  The remainder operator \<^verbatim>\<open>a % b\<close> of JavaScript truncates the quotient towards zero,
  so the result has the sign of the dividend. Every use in the source has the
  literal divisor 360.
\<close>

definition js_trunc :: "real \<Rightarrow> int" where
  "js_trunc q = (if q < 0 then \<lceil>q\<rceil> else \<lfloor>q\<rfloor>)"

definition js_rem :: "real \<Rightarrow> real \<Rightarrow> real" where
  "js_rem a b = a - b * of_int (js_trunc (a / b))"

text \<open>
  The two loops that appear, in this order, in \<^verbatim>\<open>smoothAngle\<close> (sensor.js), in
  \<^verbatim>\<open>handleOrientation\<close> (main.js) and in \<^verbatim>\<open>updatePointerUI\<close> (main.js):
  \<^verbatim>\<open>while (diff < -180) diff += 360; while (diff > 180) diff -= 360;\<close>
\<close>

function while_add360 :: "real \<Rightarrow> real" where
  "while_add360 diff = (if diff < - 180 then while_add360 (diff + 360) else diff)"
  by pat_completeness auto
termination
proof (relation "measure (\<lambda>d. nat \<lceil>(- 180 - d) / 360\<rceil>)")
  show "wf (measure (\<lambda>d. nat \<lceil>(- 180 - d) / 360\<rceil>))"
    by simp
next
  fix diff :: real
  assume neg: "diff < - 180"
  have shift: "(- 180 - (diff + 360)) / 360 = (- 180 - diff) / 360 - 1"
    by (simp add: field_simps)
  have pos: "0 < (- 180 - diff) / 360"
    using neg by simp
  hence "1 \<le> \<lceil>(- 180 - diff) / 360\<rceil>"
    by linarith
  hence less: "nat (\<lceil>(- 180 - diff) / 360\<rceil> - 1) < nat \<lceil>(- 180 - diff) / 360\<rceil>"
    by linarith
  have "\<lceil>(- 180 - (diff + 360)) / 360\<rceil> = \<lceil>(- 180 - diff) / 360\<rceil> - 1"
    unfolding shift by simp
  with less show "(diff + 360, diff) \<in> measure (\<lambda>d. nat \<lceil>(- 180 - d) / 360\<rceil>)"
    unfolding in_measure by (simp only:)
qed

function while_sub360 :: "real \<Rightarrow> real" where
  "while_sub360 diff = (if diff > 180 then while_sub360 (diff - 360) else diff)"
  by pat_completeness auto
termination
proof (relation "measure (\<lambda>d. nat \<lceil>(d - 180) / 360\<rceil>)")
  show "wf (measure (\<lambda>d. nat \<lceil>(d - 180) / 360\<rceil>))"
    by simp
next
  fix diff :: real
  assume big: "180 < diff"
  have shift: "(diff - 360 - 180) / 360 = (diff - 180) / 360 - 1"
    by (simp add: field_simps)
  have pos: "0 < (diff - 180) / 360"
    using big by simp
  hence "1 \<le> \<lceil>(diff - 180) / 360\<rceil>"
    by linarith
  hence less: "nat (\<lceil>(diff - 180) / 360\<rceil> - 1) < nat \<lceil>(diff - 180) / 360\<rceil>"
    by linarith
  have "\<lceil>(diff - 360 - 180) / 360\<rceil> = \<lceil>(diff - 180) / 360\<rceil> - 1"
    unfolding shift by simp
  with less show "(diff - 360, diff) \<in> measure (\<lambda>d. nat \<lceil>(d - 180) / 360\<rceil>)"
    unfolding in_measure by (simp only:)
qed

declare while_add360.simps [simp del]
declare while_sub360.simps [simp del]

definition wrap180 :: "real \<Rightarrow> real" where
  "wrap180 diff = while_sub360 (while_add360 diff)"

section \<open>The sensor manager of sensor.js\<close>

text \<open>
  A \<^verbatim>\<open>DeviceOrientationEvent\<close> as the handlers read it. The three angles are numbers
  or \<^verbatim>\<open>null\<close>; \<^verbatim>\<open>webkitCompassHeading\<close> is absent (\<open>None\<close>) except on iOS;
  \<open>ev_type_absolute\<close> stands for \<^verbatim>\<open>event.type === 'deviceorientationabsolute'\<close>.
\<close>

record orientation_event =
  ev_alpha :: "real option"
  ev_beta :: "real option"
  ev_gamma :: "real option"
  ev_absolute :: bool
  ev_type_absolute :: bool
  webkitCompassHeading :: "real option"

text \<open>
  The fields of \<^verbatim>\<open>this\<close>, together with the browser's \<^verbatim>\<open>localStorage\<close> the class
  reads and writes (a stored decimal string is kept as the number it denotes).
\<close>

record sensor_manager =
  heading :: real
  pitch :: real
  calibrationOffset :: real
  pitchOffset :: real
  alpha :: real
  beta :: real
  gamma :: real
  smoothing :: real
  localStorage :: "string \<rightharpoonup> real"

text \<open>The object handed to the \<^verbatim>\<open>onUpdate\<close> callback.\<close>

record update_data =
  data_heading :: real
  data_pitch :: real
  data_raw :: "real option \<times> real option \<times> real option"

text \<open>\<^verbatim>\<open>parseFloat(localStorage.getItem(key) || '0')\<close>\<close>

definition stored_or_zero :: "(string \<rightharpoonup> real) \<Rightarrow> string \<Rightarrow> real" where
  "stored_or_zero storage key = (case storage key of None \<Rightarrow> 0 | Some v \<Rightarrow> v)"

definition new_SensorManager :: "(string \<rightharpoonup> real) \<Rightarrow> sensor_manager" where
  "new_SensorManager storage =
     \<lparr>heading = 0, pitch = 0,
      calibrationOffset = stored_or_zero storage ''stars_north_offset'',
      pitchOffset = stored_or_zero storage ''stars_pitch_offset'',
      alpha = 0, beta = 0, gamma = 0,
      smoothing = 85 / 100,
      localStorage = storage\<rparr>"

text \<open>\<^verbatim>\<open>if (event.webkitCompassHeading)\<close>: a number other than 0 is truthy.\<close>

definition compass_truthy :: "real option \<Rightarrow> bool" where
  "compass_truthy h = (case h of None \<Rightarrow> False | Some v \<Rightarrow> v \<noteq> 0)"

definition smoothAngle :: "sensor_manager \<Rightarrow> real \<Rightarrow> real \<Rightarrow> real" where
  "smoothAngle this current target =
     (let diff = wrap180 (target - current)
      in js_rem (current + diff * (1 - smoothing this) + 360) 360)"

text \<open>Line 120 of sensor.js: \<^verbatim>\<open>let rawPitch = beta - 90;\<close>\<close>

definition rawPitch :: "real \<Rightarrow> real" where
  "rawPitch b = b - 90"

text \<open>
  \<^verbatim>\<open>handleOrientation\<close> of sensor.js. The result is the argument of the
  \<^verbatim>\<open>onUpdate\<close> call (\<open>None\<close> when the handler returns without calling it) and
  the manager afterwards.
\<close>

definition handleOrientation ::
  "orientation_event \<Rightarrow> sensor_manager \<Rightarrow> update_data option \<times> sensor_manager" where
  "handleOrientation event this =
     (if ev_alpha event = None \<or> ev_beta event = None \<or> ev_gamma event = None
      then (None, this)
      else
        let a = the (ev_alpha event); b = the (ev_beta event); g = the (ev_gamma event);
            rawHeading = (if compass_truthy (webkitCompassHeading event)
                          then the (webkitCompassHeading event)
                          else 360 - a);
            rawHeading' = js_rem (rawHeading + 360) 360;
            calibratedHeading = js_rem (rawHeading' + calibrationOffset this + 360) 360;
            rawPitch' = rawPitch b + pitchOffset this;
            this1 = this\<lparr>heading := smoothAngle this (heading this) calibratedHeading\<rparr>;
            this2 = this1\<lparr>pitch := pitch this1 * smoothing this1
                                     + rawPitch' * (1 - smoothing this1)\<rparr>;
            this3 = this2\<lparr>alpha := a, beta := b, gamma := g\<rparr>
        in (Some \<lparr>data_heading = heading this3, data_pitch = pitch this3,
                   data_raw = (Some a, Some b, Some g)\<rparr>,
            this3))"

text \<open>A stream of events, handled one after the other.\<close>

fun handle_all :: "orientation_event list \<Rightarrow> sensor_manager \<Rightarrow> sensor_manager" where
  "handle_all [] this = this"
| "handle_all (event # events) this = handle_all events (snd (handleOrientation event this))"

definition setCalibration :: "sensor_manager \<Rightarrow> real \<times> sensor_manager" where
  "setCalibration this =
     (let currentRaw = js_rem (heading this - calibrationOffset this + 360) 360;
          this1 = this\<lparr>calibrationOffset := - currentRaw\<rparr>;
          this2 = this1\<lparr>localStorage :=
                    (localStorage this1)(''stars_north_offset'' \<mapsto> calibrationOffset this1)\<rparr>
      in (calibrationOffset this2, this2))"

definition setPitchCalibration :: "sensor_manager \<Rightarrow> real \<times> sensor_manager" where
  "setPitchCalibration this =
     (let this1 = this\<lparr>pitchOffset := pitchOffset this - pitch this\<rparr>;
          this2 = this1\<lparr>localStorage :=
                    (localStorage this1)(''stars_pitch_offset'' \<mapsto> pitchOffset this1)\<rparr>
      in (pitchOffset this2, this2))"

text \<open>
  The circular distance between two headings: the size of the shortest signed
  path, as the code itself computes it.
\<close>

definition circ_dist :: "real \<Rightarrow> real \<Rightarrow> real" where
  "circ_dist current target = \<bar>wrap180 (target - current)\<bar>"

section \<open>The sensor manager of main.js\<close>

text \<open>
  main.js declares a class \<^verbatim>\<open>SensorManager\<close> of its own and instantiates that one.
  Its field \<^verbatim>\<open>alpha\<close> is the responsiveness of the low-pass filter (0.15).
\<close>

record main_sensor_manager =
  m_heading :: real
  m_pitch :: real
  m_calibrationOffset :: real
  m_alpha :: real
  m_localStorage :: "string \<rightharpoonup> real"

definition new_main_SensorManager :: "(string \<rightharpoonup> real) \<Rightarrow> main_sensor_manager" where
  "new_main_SensorManager storage =
     \<lparr>m_heading = 0, m_pitch = 0,
      m_calibrationOffset = stored_or_zero storage ''stars_north_offset'',
      m_alpha = 15 / 100,
      m_localStorage = storage\<rparr>"

text \<open>Arithmetic on \<^verbatim>\<open>null\<close>: \<^verbatim>\<open>360 - null\<close> is 360, since ToNumber(null) is 0.\<close>

definition to_number :: "real option \<Rightarrow> real" where
  "to_number v = (case v of None \<Rightarrow> 0 | Some x \<Rightarrow> x)"

text \<open>Line 79 of main.js: \<^verbatim>\<open>let pitch = 90 - beta;\<close>\<close>

definition main_pitch :: "real option \<Rightarrow> real" where
  "main_pitch b = 90 - to_number b"

definition main_handleOrientation ::
  "orientation_event \<Rightarrow> main_sensor_manager \<Rightarrow> update_data \<times> main_sensor_manager" where
  "main_handleOrientation event this =
     (let heading0 = (if compass_truthy (webkitCompassHeading event)
                      then the (webkitCompassHeading event)
                      else if ev_absolute event \<or> ev_type_absolute event
                      then 360 - to_number (ev_alpha event)
                      else 360 - to_number (ev_alpha event));
          heading1 = js_rem (heading0 + 360) 360;
          heading2 = js_rem (heading1 + m_calibrationOffset this + 360) 360;
          pitch0 = main_pitch (ev_beta event);
          diff = wrap180 (heading2 - m_heading this);
          this1 = this\<lparr>m_heading := js_rem (m_heading this + diff * m_alpha this + 360) 360\<rparr>;
          this2 = this1\<lparr>m_pitch := m_pitch this1 + (pitch0 - m_pitch this1) * m_alpha this1\<rparr>
      in (\<lparr>data_heading = m_heading this2, data_pitch = m_pitch this2,
            data_raw = (ev_alpha event, ev_beta event, ev_gamma event)\<rparr>,
          this2))"

definition calibrateCurrentAsNorth :: "main_sensor_manager \<Rightarrow> main_sensor_manager" where
  "calibrateCurrentAsNorth this =
     (let raw = js_rem (m_heading this - m_calibrationOffset this + 360) 360;
          this1 = this\<lparr>m_calibrationOffset := - raw\<rparr>
      in this1\<lparr>m_localStorage :=
                 (m_localStorage this1)(''stars_north_offset'' \<mapsto> m_calibrationOffset this1)\<rparr>)"

section \<open>The sensor manager of the later main.js\<close>

text \<open>
  The unnamed source file part_002 is a later revision of main.js (it adds the
  muhurta screen and the pitch offset). Its \<^verbatim>\<open>SensorManager\<close> differs from the one
  above in the pitch sample, \<^verbatim>\<open>let pitch = beta - 90; pitch = pitch + this.pitchOffset;\<close>
\<close>

record later_sensor_manager =
  l_heading :: real
  l_pitch :: real
  l_calibrationOffset :: real
  l_pitchOffset :: real
  l_alpha :: real
  l_localStorage :: "string \<rightharpoonup> real"

definition new_later_SensorManager :: "(string \<rightharpoonup> real) \<Rightarrow> later_sensor_manager" where
  "new_later_SensorManager storage =
     \<lparr>l_heading = 0, l_pitch = 0,
      l_calibrationOffset = stored_or_zero storage ''stars_north_offset'',
      l_pitchOffset = stored_or_zero storage ''stars_pitch_offset'',
      l_alpha = 15 / 100,
      l_localStorage = storage\<rparr>"

definition later_pitch :: "real option \<Rightarrow> real" where
  "later_pitch b = to_number b - 90"

definition later_handleOrientation ::
  "orientation_event \<Rightarrow> later_sensor_manager \<Rightarrow> update_data \<times> later_sensor_manager" where
  "later_handleOrientation event this =
     (let heading0 = (if compass_truthy (webkitCompassHeading event)
                      then the (webkitCompassHeading event)
                      else if ev_absolute event \<or> ev_type_absolute event
                      then 360 - to_number (ev_alpha event)
                      else 360 - to_number (ev_alpha event));
          heading1 = js_rem (heading0 + 360) 360;
          heading2 = js_rem (heading1 + l_calibrationOffset this + 360) 360;
          pitch0 = later_pitch (ev_beta event);
          pitch1 = pitch0 + l_pitchOffset this;
          diff = wrap180 (heading2 - l_heading this);
          this1 = this\<lparr>l_heading := js_rem (l_heading this + diff * l_alpha this + 360) 360\<rparr>;
          this2 = this1\<lparr>l_pitch := l_pitch this1 + (pitch1 - l_pitch this1) * l_alpha this1\<rparr>
      in (\<lparr>data_heading = l_heading this2, data_pitch = l_pitch this2,
            data_raw = (ev_alpha event, ev_beta event, ev_gamma event)\<rparr>,
          this2))"

section \<open>The pointer screen of main.js\<close>

text \<open>
  A body as the pointer screen reads it: \<^verbatim>\<open>name\<close>, \<^verbatim>\<open>alt\<close> and \<^verbatim>\<open>az\<close> (the list screen
  also reads \<^verbatim>\<open>status\<close>).
\<close>

record body =
  name :: string
  alt :: real
  az :: real

datatype screen_name = StartScreen | ListScreen | PointerScreen

text \<open>
  The texts written into \<^verbatim>\<open>turn-msg\<close> and \<^verbatim>\<open>tilt-msg\<close>. A constructor with an
  argument carries the number the source hands to \<^verbatim>\<open>formatDeg\<close>.
\<close>

datatype message =
  NoMessage | ALIGNED | FaceOK | TurnRIGHT real | TurnLEFT real
  | TiltOK | TiltUP real | TiltDOWN real

text \<open>
  \<^verbatim>\<open>appState\<close>, the part of the page the pointer screen writes, and the platform:
  \<open>activeScreen\<close> is the one screen \<^verbatim>\<open>showScreen\<close> left without the class
  \<^verbatim>\<open>hidden\<close>; \<open>canVibrate\<close> is \<^verbatim>\<open>navigator.vibrate\<close> being defined; \<open>vibrations\<close>
  counts the calls of \<^verbatim>\<open>navigator.vibrate(100)\<close>.
\<close>

record app_state =
  lat :: "real option"
  lon :: "real option"
  targetBody :: "body option"
  currentHeading :: real
  currentPitch :: real
  isLocked :: bool
  activeScreen :: screen_name
  targetName :: string
  targetCoords :: "real \<times> real"
  turnMsg :: message
  tiltMsg :: message
  arrowHidden :: bool
  arrowRotation :: real
  lockHidden :: bool
  warnHidden :: bool
  canVibrate :: bool
  vibrations :: nat

definition showScreen :: "screen_name \<Rightarrow> app_state \<Rightarrow> app_state" where
  "showScreen scr st = st\<lparr>activeScreen := scr\<rparr>"

text \<open>The locals \<^verbatim>\<open>azDiff\<close>, \<^verbatim>\<open>altDiff\<close> and \<^verbatim>\<open>isAligned\<close> of \<^verbatim>\<open>updatePointerUI\<close>.\<close>

definition azDiff :: "body \<Rightarrow> app_state \<Rightarrow> real" where
  "azDiff target st = wrap180 (az target - currentHeading st)"

definition altDiff :: "body \<Rightarrow> app_state \<Rightarrow> real" where
  "altDiff target st = alt target - currentPitch st"

definition isAligned :: "body \<Rightarrow> app_state \<Rightarrow> bool" where
  "isAligned target st = (\<bar>azDiff target st\<bar> < 6 \<and> \<bar>altDiff target st\<bar> < 6)"

text \<open>The texts \<^verbatim>\<open>updatePointerUI\<close> chooses when the state is not aligned.\<close>

definition turn_text :: "real \<Rightarrow> message" where
  "turn_text d = (if \<bar>d\<bar> < 2 then FaceOK else if d > 0 then TurnRIGHT d else TurnLEFT \<bar>d\<bar>)"

definition tilt_text :: "real \<Rightarrow> message" where
  "tilt_text d = (if \<bar>d\<bar> < 2 then TiltOK else if d > 0 then TiltUP d else TiltDOWN \<bar>d\<bar>)"

definition updatePointerUI :: "app_state \<Rightarrow> app_state" where
  "updatePointerUI st =
     (case targetBody st of
        None \<Rightarrow> st
      | Some target \<Rightarrow>
          if activeScreen st \<noteq> PointerScreen then st
          else
            let st1 = st\<lparr>targetCoords := (alt target, az target)\<rparr>;
                st2 =
                  (if isAligned target st
                   then
                     (if \<not> isLocked st1
                      then st1\<lparr>vibrations := (if canVibrate st1 then Suc (vibrations st1)
                                               else vibrations st1),
                               isLocked := True\<rparr>
                      else st1)
                     \<lparr>arrowHidden := True, lockHidden := False,
                      turnMsg := ALIGNED, tiltMsg := ALIGNED\<rparr>
                   else
                     st1\<lparr>isLocked := False, arrowHidden := False, lockHidden := True,
                         turnMsg := turn_text (azDiff target st),
                         tiltMsg := tilt_text (altDiff target st),
                         arrowRotation := azDiff target st\<rparr>)
            in st2\<lparr>warnHidden := \<not> (alt target < 0)\<rparr>)"

definition startTracking :: "body \<Rightarrow> app_state \<Rightarrow> app_state" where
  "startTracking b st =
     updatePointerUI ((showScreen PointerScreen (st\<lparr>targetBody := Some b\<rparr>))
                        \<lparr>targetName := name b\<rparr>)"

text \<open>The click handler of \<^verbatim>\<open>back-btn\<close>.\<close>

definition back_btn_click :: "app_state \<Rightarrow> app_state" where
  "back_btn_click st = (showScreen ListScreen st)\<lparr>targetBody := None\<rparr>"

text \<open>
  The callback main.js passes to its sensor manager (the text it writes into the
  debug overlay is left out).
\<close>

definition onUpdate :: "update_data \<Rightarrow> app_state \<Rightarrow> app_state" where
  "onUpdate data st =
     updatePointerUI (st\<lparr>currentHeading := data_heading data, currentPitch := data_pitch data\<rparr>)"

section \<open>Concrete inputs\<close>

text \<open>
  \<^verbatim>\<open>appState\<close> as main.js initialises it, on a freshly loaded page (start screen
  shown, nothing written yet) of a platform that has \<^verbatim>\<open>navigator.vibrate\<close>.
\<close>

definition appState0 :: app_state where
  "appState0 =
     \<lparr>lat = None, lon = None, targetBody = None, currentHeading = 0, currentPitch = 0,
      isLocked = False, activeScreen = StartScreen, targetName = [],
      targetCoords = (0, 0), turnMsg = NoMessage, tiltMsg = NoMessage,
      arrowHidden = False, arrowRotation = 0, lockHidden = True, warnHidden = True,
      canVibrate = True, vibrations = 0\<rparr>"

definition jupiter :: body where
  "jupiter = \<lparr>name = ''Jupiter'', alt = 40, az = 120\<rparr>"

definition moon :: body where
  "moon = \<lparr>name = ''Moon'', alt = 42, az = 118\<rparr>"

text \<open>What the sensor callback delivers when the device points at azimuth 120, altitude 40.\<close>

definition at_120_40 :: update_data where
  "at_120_40 = \<lparr>data_heading = 120, data_pitch = 40, data_raw = (Some 240, Some 130, Some 0)\<rparr>"

text \<open>An event of a device without orientation sensors: every angle is \<^verbatim>\<open>null\<close>.\<close>

definition null_event :: orientation_event where
  "null_event =
     \<lparr>ev_alpha = None, ev_beta = None, ev_gamma = None, ev_absolute = False,
      ev_type_absolute = False, webkitCompassHeading = None\<rparr>"

text \<open>An event with the given angles and no compass heading.\<close>

definition angles_event :: "real \<Rightarrow> real \<Rightarrow> real \<Rightarrow> orientation_event" where
  "angles_event a b g =
     \<lparr>ev_alpha = Some a, ev_beta = Some b, ev_gamma = Some g, ev_absolute = True,
      ev_type_absolute = True, webkitCompassHeading = None\<rparr>"

text \<open>
  The state the back button leaves behind after a lock: the device points at
  azimuth 120, altitude 40, Jupiter is selected and found aligned, then the user
  goes back to the list.
\<close>

definition locked_then_back :: app_state where
  "locked_then_back = back_btn_click (startTracking jupiter (onUpdate at_120_40 appState0))"

text \<open>What the callback delivers when the device points north at the horizon.\<close>

definition far_away :: update_data where
  "far_away = \<lparr>data_heading = 0, data_pitch = 0, data_raw = (Some 0, Some 90, Some 0)\<rparr>"

section \<open>Facts about the wrap loops\<close>

text \<open>The remainder and the wrap on a few numbers, as JavaScript computes them.\<close>

lemma js_rem_examples:
  "js_rem 725 360 = 5 \<and> js_rem (- 30) 360 = - 30 \<and> js_rem (- 725) 360 = - 5 \<and>
   js_rem (7135 / 10) 360 = 3535 / 10"
proof -
  have c: "\<lceil>- (1 / 12) :: real\<rceil> = 0"
    by (rule ceiling_unique) simp_all
  show ?thesis
    by (simp add: js_rem_def js_trunc_def c)
qed

lemma while_add360_id: "- 180 \<le> d \<Longrightarrow> while_add360 d = d"
  by (subst while_add360.simps) simp

lemma while_add360_step: "d < - 180 \<Longrightarrow> while_add360 d = while_add360 (d + 360)"
  by (subst while_add360.simps) simp

lemma while_sub360_id: "d \<le> 180 \<Longrightarrow> while_sub360 d = d"
  by (subst while_sub360.simps) simp

lemma while_sub360_step: "180 < d \<Longrightarrow> while_sub360 d = while_sub360 (d - 360)"
  by (subst while_sub360.simps) simp

lemma while_add360_lower: "- 180 \<le> while_add360 d"
proof (induction d rule: while_add360.induct)
  case (1 diff)
  show ?case
  proof (cases "diff < - 180")
    case True
    with 1 show ?thesis by (simp add: while_add360_step)
  next
    case False
    then show ?thesis by (simp add: while_add360_id)
  qed
qed

lemma while_add360_upper: "d \<le> 180 \<Longrightarrow> while_add360 d \<le> 180"
proof (induction d rule: while_add360.induct)
  case (1 diff)
  show ?case
  proof (cases "diff < - 180")
    case True
    with 1 show ?thesis by (simp add: while_add360_step)
  next
    case False
    with 1 show ?thesis by (simp add: while_add360_id)
  qed
qed

lemma while_sub360_upper: "while_sub360 d \<le> 180"
proof (induction d rule: while_sub360.induct)
  case (1 diff)
  show ?case
  proof (cases "180 < diff")
    case True
    with 1 show ?thesis by (simp add: while_sub360_step)
  next
    case False
    then show ?thesis by (simp add: while_sub360_id)
  qed
qed

lemma while_sub360_lower: "- 180 \<le> d \<Longrightarrow> - 180 \<le> while_sub360 d"
proof (induction d rule: while_sub360.induct)
  case (1 diff)
  show ?case
  proof (cases "180 < diff")
    case True
    with 1 show ?thesis by (simp add: while_sub360_step)
  next
    case False
    with 1 show ?thesis by (simp add: while_sub360_id)
  qed
qed

lemma wrap180_range: "- 180 \<le> wrap180 d \<and> wrap180 d \<le> 180"
  unfolding wrap180_def
  by (simp add: while_sub360_upper while_sub360_lower while_add360_lower)

lemma wrap180_id: "- 180 \<le> d \<Longrightarrow> d \<le> 180 \<Longrightarrow> wrap180 d = d"
  unfolding wrap180_def by (simp add: while_add360_id while_sub360_id)

lemma wrap180_below: "d < - 180 \<Longrightarrow> wrap180 d = wrap180 (d + 360)"
  unfolding wrap180_def by (simp add: while_add360_step)

lemma wrap180_above: "180 < d \<Longrightarrow> wrap180 d = wrap180 (d - 360)"
  unfolding wrap180_def by (simp add: while_add360_id while_sub360_step)

lemma wrap180_examples:
  "wrap180 190 = - 170 \<and> wrap180 (- 190) = 170 \<and> wrap180 540 = 180 \<and> wrap180 (- 540) = - 180"
  by (simp add: wrap180_above wrap180_below wrap180_id)

lemma wrap180_period: "x \<noteq> - 180 \<Longrightarrow> wrap180 x = wrap180 (x + 360)"
proof -
  assume ne: "x \<noteq> - 180"
  consider (lo) "x < - 180" | (mid) "- 180 < x" "x \<le> 180" | (hi) "180 < x"
    using ne by linarith
  then show ?thesis
  proof cases
    case lo
    then show ?thesis by (rule wrap180_below)
  next
    case mid
    then have "wrap180 (x + 360) = wrap180 (x + 360 - 360)"
      by (intro wrap180_above) simp
    then show ?thesis by simp
  next
    case hi
    then have "wrap180 (x + 360) = wrap180 (x + 360 - 360)"
      by (intro wrap180_above) simp
    then show ?thesis by simp
  qed
qed

lemma wrap180_add_nat: "- 180 < y \<Longrightarrow> y \<le> 180 \<Longrightarrow> wrap180 (y + 360 * real n) = y"
proof (induction n)
  case 0
  then show ?case by (simp add: wrap180_id)
next
  case (Suc n)
  have "180 < y + 360 * real (Suc n)"
    using Suc.prems by simp
  then have "wrap180 (y + 360 * real (Suc n)) = wrap180 (y + 360 * real (Suc n) - 360)"
    by (rule wrap180_above)
  also have "y + 360 * real (Suc n) - 360 = y + 360 * real n"
    by simp
  finally show ?case using Suc by simp
qed

lemma wrap180_sub_nat: "- 180 \<le> y \<Longrightarrow> y < 180 \<Longrightarrow> wrap180 (y - 360 * real n) = y"
proof (induction n)
  case 0
  then show ?case by (simp add: wrap180_id)
next
  case (Suc n)
  have "y - 360 * real (Suc n) < - 180"
    using Suc.prems by simp
  then have "wrap180 (y - 360 * real (Suc n)) = wrap180 (y - 360 * real (Suc n) + 360)"
    by (rule wrap180_below)
  also have "y - 360 * real (Suc n) + 360 = y - 360 * real n"
    by simp
  finally show ?case using Suc by simp
qed

lemma wrap180_unique:
  assumes "- 180 < y" "y < 180"
  shows "wrap180 (y + 360 * of_int k) = y"
proof (cases "0 \<le> k")
  case True
  then obtain n where "k = int n" using nonneg_int_cases by blast
  then show ?thesis using wrap180_add_nat [of y n] assms by simp
next
  case False
  then obtain n where "k = - int n" by (metis int_cases2 of_nat_0_le_iff)
  then show ?thesis using wrap180_sub_nat [of y n] assms by simp
qed

lemma while_add360_ex: "\<exists>k::int. while_add360 d = d + 360 * of_int k"
proof (induction d rule: while_add360.induct)
  case (1 diff)
  show ?case
  proof (cases "diff < - 180")
    case True
    with 1 obtain k :: int where "while_add360 (diff + 360) = diff + 360 + 360 * of_int k"
      by blast
    then have "while_add360 diff = diff + 360 * of_int (k + 1)"
      using True by (simp add: while_add360_step)
    then show ?thesis by blast
  next
    case False
    then have "while_add360 diff = diff + 360 * of_int 0"
      by (simp add: while_add360_id)
    then show ?thesis by blast
  qed
qed

lemma while_sub360_ex: "\<exists>k::int. while_sub360 d = d + 360 * of_int k"
proof (induction d rule: while_sub360.induct)
  case (1 diff)
  show ?case
  proof (cases "180 < diff")
    case True
    with 1 obtain k :: int where "while_sub360 (diff - 360) = diff - 360 + 360 * of_int k"
      by blast
    then have "while_sub360 diff = diff + 360 * of_int (k - 1)"
      using True by (simp add: while_sub360_step)
    then show ?thesis by blast
  next
    case False
    then have "while_sub360 diff = diff + 360 * of_int 0"
      by (simp add: while_sub360_id)
    then show ?thesis by blast
  qed
qed

lemma wrap180_ex: "\<exists>k::int. wrap180 d = d + 360 * of_int k"
proof -
  obtain k :: int where k: "while_add360 d = d + 360 * of_int k"
    using while_add360_ex by blast
  obtain j :: int where j: "while_sub360 (while_add360 d) = while_add360 d + 360 * of_int j"
    using while_sub360_ex by blast
  have "wrap180 d = d + 360 * of_int (k + j)"
    unfolding wrap180_def using k j by (simp add: algebra_simps)
  then show ?thesis by blast
qed

lemma js_rem_ex: "\<exists>k::int. js_rem x 360 = x + 360 * of_int k"
proof -
  have "js_rem x 360 = x + 360 * of_int (- js_trunc (x / 360))"
    by (simp add: js_rem_def)
  then show ?thesis by blast
qed

lemma js_rem_nonneg_range: "0 \<le> x \<Longrightarrow> 0 \<le> js_rem x 360 \<and> js_rem x 360 < 360"
proof -
  assume "0 \<le> x"
  then have t: "js_trunc (x / 360) = \<lfloor>x / 360\<rfloor>"
    by (simp add: js_trunc_def)
  have "of_int \<lfloor>x / 360\<rfloor> \<le> x / 360" "x / 360 < of_int \<lfloor>x / 360\<rfloor> + 1"
    by linarith+
  then show ?thesis unfolding js_rem_def t by (simp add: field_simps)
qed

section \<open>Shortest signed path\<close>

text \<open>
  C1 (amended). For headings \<open>h1\<close>, \<open>h2\<close> in [0,360) the wrapped difference
  \<open>wrap180 (h2 - h1)\<close> lies in the closed interval [-180,180]; it is -180 exactly
  when \<open>h2 - h1\<close> is -180 (the first loop tests \<^verbatim>\<open>diff < -180\<close>, so -180 is left
  alone), and in every other case it lies in (-180,180]. \<open>wrap180\<close> agrees on
  \<open>x\<close> and \<open>x + 360\<close> for every \<open>x\<close> other than -180.
\<close>

theorem wrap180_closed_range_periodic:
  "(0 \<le> h1 \<and> h1 < 360 \<and> 0 \<le> h2 \<and> h2 < 360 \<longrightarrow>
      - 180 \<le> wrap180 (h2 - h1) \<and> wrap180 (h2 - h1) \<le> 180 \<and>
      ((wrap180 (h2 - h1) = - 180) = (h2 - h1 = - 180))) \<and>
   (x \<noteq> - 180 \<longrightarrow> wrap180 x = wrap180 (x + 360))"
proof (intro conjI impI)
  show "- 180 \<le> wrap180 (h2 - h1)" and "wrap180 (h2 - h1) \<le> 180"
    using wrap180_range [of "h2 - h1"] by simp_all
next
  assume hs: "0 \<le> h1 \<and> h1 < 360 \<and> 0 \<le> h2 \<and> h2 < 360"
  define d where "d = h2 - h1"
  have bounds: "- 360 < d" "d < 360"
    using hs by (simp_all add: d_def)
  consider (lo) "d < - 180" | (mid) "- 180 \<le> d" "d \<le> 180" | (hi) "180 < d"
    by linarith
  then have "(wrap180 d = - 180) = (d = - 180)"
  proof cases
    case lo
    then have "wrap180 d = wrap180 (d + 360)"
      by (rule wrap180_below)
    also have "\<dots> = d + 360"
      using lo bounds by (intro wrap180_id) simp_all
    finally show ?thesis using lo bounds by simp
  next
    case mid
    then show ?thesis by (simp add: wrap180_id)
  next
    case hi
    then have "wrap180 d = wrap180 (d - 360)"
      by (rule wrap180_above)
    also have "\<dots> = d - 360"
      using hi bounds by (intro wrap180_id) simp_all
    finally show ?thesis using hi bounds by simp
  qed
  then show "(wrap180 (h2 - h1) = - 180) = (h2 - h1 = - 180)"
    by (simp add: d_def)
next
  assume "x \<noteq> - 180"
  then show "wrap180 x = wrap180 (x + 360)"
    by (rule wrap180_period)
qed

theorem wrap180_closed_range_periodic_witness:
  "((0::real) \<le> 350 \<and> (350::real) < 360 \<and> (0::real) \<le> 10 \<and> (10::real) < 360) \<and>
   - 180 \<le> wrap180 (10 - 350) \<and> wrap180 (10 - 350) \<le> 180 \<and>
   wrap180 (10 - 350) \<noteq> - 180 \<and>
   (200::real) \<noteq> - 180 \<and> wrap180 200 = wrap180 (200 + 360)"
  using wrap180_closed_range_periodic [of 350 10 200] by simp

text \<open>
  The half-open interval and the unrestricted period both fail at -180: the
  headings 180 and 0 differ by -180, which the loops return unchanged, while
  180 = -180 + 360 is returned as 180.
\<close>

theorem wrap180_at_minus_180:
  "\<not> (- 180 < wrap180 (0 - 180)) \<and> wrap180 (- 180) \<noteq> wrap180 (- 180 + 360)"
proof -
  have a: "wrap180 (- 180) = - 180"
    by (rule wrap180_id) simp_all
  have b: "wrap180 180 = 180"
    by (rule wrap180_id) simp_all
  show ?thesis using a b by simp
qed

section \<open>Heading calibration\<close>

lemma js_rem_360_360: "js_rem 360 360 = 0"
  by (simp add: js_rem_def js_trunc_def)

text \<open>
  C6. \<^verbatim>\<open>setCalibration\<close> recovers \<open>raw = (heading - oldOffset + 360) % 360\<close>, stores and
  returns the new offset \<open>- raw\<close>, and the calibrated heading recomputed from that
  same raw value, \<open>(raw + newOffset + 360) % 360\<close>, is exactly 0, whatever the
  heading and the old offset were. The same holds for \<^verbatim>\<open>calibrateCurrentAsNorth\<close>
  of main.js.
\<close>

theorem calibration_round_trip:
  "fst (setCalibration this) = - js_rem (heading this - calibrationOffset this + 360) 360 \<and>
   calibrationOffset (snd (setCalibration this)) = fst (setCalibration this) \<and>
   js_rem (js_rem (heading this - calibrationOffset this + 360) 360
             + calibrationOffset (snd (setCalibration this)) + 360) 360 = 0 \<and>
   js_rem (js_rem (m_heading that - m_calibrationOffset that + 360) 360
             + m_calibrationOffset (calibrateCurrentAsNorth that) + 360) 360 = 0"
  by (simp add: setCalibration_def calibrateCurrentAsNorth_def Let_def js_rem_360_360)

text \<open>
  C10. \<^verbatim>\<open>setCalibration\<close> changes the heading offset and the stored key
  \<^verbatim>\<open>stars_north_offset\<close> and nothing else: the manager afterwards is the manager
  before with these two replaced, so the smoothed heading and pitch, the pitch
  offset, the smoothing factor and every other stored key are as before.
  \<^verbatim>\<open>setPitchCalibration\<close> changes the pitch offset and the stored key
  \<^verbatim>\<open>stars_pitch_offset\<close> and nothing else; the heading offset and the smoothed
  heading are as before.
\<close>

theorem calibration_frame:
  "snd (setCalibration this) =
     this\<lparr>calibrationOffset := fst (setCalibration this),
          localStorage :=
            (localStorage this)(''stars_north_offset'' \<mapsto> fst (setCalibration this))\<rparr> \<and>
   heading (snd (setCalibration this)) = heading this \<and>
   pitch (snd (setCalibration this)) = pitch this \<and>
   pitchOffset (snd (setCalibration this)) = pitchOffset this \<and>
   smoothing (snd (setCalibration this)) = smoothing this \<and>
   localStorage (snd (setCalibration this)) |` (- {''stars_north_offset''}) =
     localStorage this |` (- {''stars_north_offset''}) \<and>
   snd (setPitchCalibration this) =
     this\<lparr>pitchOffset := fst (setPitchCalibration this),
          localStorage :=
            (localStorage this)(''stars_pitch_offset'' \<mapsto> fst (setPitchCalibration this))\<rparr> \<and>
   calibrationOffset (snd (setPitchCalibration this)) = calibrationOffset this \<and>
   heading (snd (setPitchCalibration this)) = heading this \<and>
   localStorage (snd (setPitchCalibration this)) |` (- {''stars_pitch_offset''}) =
     localStorage this |` (- {''stars_pitch_offset''})"
  by (simp add: setCalibration_def setPitchCalibration_def Let_def)

section \<open>Alignment and guidance\<close>

text \<open>
  C8. With the target at altitude 40 and azimuth 120, the pointer screen shown and
  the smoothed state at heading 114 and pitch 36, \<^verbatim>\<open>updatePointerUI\<close> computes
  \<open>azDiff = 6\<close> and \<open>altDiff = 4\<close>; 6 is not below the tolerance 6, so the state
  is not aligned, the lock stays off, no pulse is requested, and the texts are
  the turn-right instruction with 6 and the tilt-up instruction with 4.
\<close>

theorem jupiter_scenario:
  "(let st0 = st\<lparr>targetBody := Some jupiter, currentHeading := 114, currentPitch := 36,
                  activeScreen := PointerScreen\<rparr>
    in azDiff jupiter st0 = 6 \<and> altDiff jupiter st0 = 4 \<and> \<not> isAligned jupiter st0 \<and>
       turnMsg (updatePointerUI st0) = TurnRIGHT 6 \<and>
       tiltMsg (updatePointerUI st0) = TiltUP 4 \<and>
       \<not> isLocked (updatePointerUI st0) \<and>
       vibrations (updatePointerUI st0) = vibrations st)"
proof -
  have w: "wrap180 6 = 6" by (rule wrap180_id) simp_all
  show ?thesis
    by (simp add: Let_def updatePointerUI_def isAligned_def azDiff_def altDiff_def
        jupiter_def turn_text_def tilt_text_def w)
qed

lemmas scenario_defs =
  appState0_def onUpdate_def updatePointerUI_def startTracking_def showScreen_def
  back_btn_click_def jupiter_def moon_def at_120_40_def far_away_def isAligned_def azDiff_def
  altDiff_def turn_text_def tilt_text_def locked_then_back_def Let_def

lemma isAligned_fields:
  "currentHeading st' = currentHeading st \<Longrightarrow> currentPitch st' = currentPitch st \<Longrightarrow>
   isAligned target st' = isAligned target st"
  by (simp add: isAligned_def azDiff_def altDiff_def)

lemma updatePointerUI_inactive:
  "targetBody st = None \<or> activeScreen st \<noteq> PointerScreen \<Longrightarrow> updatePointerUI st = st"
  by (auto simp: updatePointerUI_def split: option.splits)

lemma updatePointerUI_active:
  assumes "targetBody st = Some target" "activeScreen st = PointerScreen"
  shows "isLocked (updatePointerUI st) = isAligned target st"
    and "vibrations (updatePointerUI st) =
           (if isAligned target st \<and> \<not> isLocked st \<and> canVibrate st
            then Suc (vibrations st) else vibrations st)"
    and "targetBody (updatePointerUI st) = Some target"
    and "activeScreen (updatePointerUI st) = PointerScreen"
    and "canVibrate (updatePointerUI st) = canVibrate st"
    and "currentHeading (updatePointerUI st) = currentHeading st"
    and "currentPitch (updatePointerUI st) = currentPitch st"
  using assms by (simp_all add: updatePointerUI_def Let_def)

lemma onUpdate_active:
  assumes "targetBody st = Some target" "activeScreen st = PointerScreen"
  shows "isLocked (onUpdate d st) =
           isAligned target (st\<lparr>currentHeading := data_heading d, currentPitch := data_pitch d\<rparr>)"
    and "vibrations (onUpdate d st) =
           (if isAligned target (st\<lparr>currentHeading := data_heading d, currentPitch := data_pitch d\<rparr>)
               \<and> \<not> isLocked st \<and> canVibrate st
            then Suc (vibrations st) else vibrations st)"
    and "targetBody (onUpdate d st) = Some target"
    and "activeScreen (onUpdate d st) = PointerScreen"
    and "canVibrate (onUpdate d st) = canVibrate st"
  using assms unfolding onUpdate_def by (simp_all add: updatePointerUI_active)

lemma isAligned_after_onUpdate:
  "isAligned target ((onUpdate d st)\<lparr>currentHeading := h, currentPitch := p\<rparr>) =
   isAligned target (st\<lparr>currentHeading := h, currentPitch := p\<rparr>)"
  by (rule isAligned_fields) simp_all

section \<open>The lock flag\<close>

text \<open>
  C7. Take an evaluation that runs (a target is selected and the pointer screen
  is shown) on a platform with \<^verbatim>\<open>navigator.vibrate\<close>. The pulse is requested exactly
  when the evaluation is aligned and \<^verbatim>\<open>isLocked\<close> was false; otherwise the number of
  pulses is unchanged; afterwards \<^verbatim>\<open>isLocked\<close> is true exactly when the evaluation was
  aligned. Hence, for sensor updates \<open>d1\<close>, \<open>d2\<close>, \<open>d3\<close> delivered in this order:
  two aligned evaluations in a row request one pulse, on the first; an aligned
  evaluation of a locked state requests none and stays locked; and aligned, not
  aligned, aligned requests two, the middle one clearing the flag.
\<close>

theorem lock_edge_one_shot:
  assumes tb: "targetBody st = Some target"
    and scr: "activeScreen st = PointerScreen"
    and vib: "canVibrate st"
  shows
    "((vibrations (updatePointerUI st) = Suc (vibrations st)) =
        (isAligned target st \<and> \<not> isLocked st)) \<and>
     ((vibrations (updatePointerUI st) = vibrations st) =
        (\<not> (isAligned target st \<and> \<not> isLocked st))) \<and>
     isLocked (updatePointerUI st) = isAligned target st \<and>
     (\<not> isLocked st \<and>
      isAligned target (st\<lparr>currentHeading := data_heading d1, currentPitch := data_pitch d1\<rparr>) \<and>
      isAligned target (st\<lparr>currentHeading := data_heading d2, currentPitch := data_pitch d2\<rparr>) \<longrightarrow>
        vibrations (onUpdate d1 st) = Suc (vibrations st) \<and>
        vibrations (onUpdate d2 (onUpdate d1 st)) = Suc (vibrations st)) \<and>
     (isLocked st \<and>
      isAligned target (st\<lparr>currentHeading := data_heading d1, currentPitch := data_pitch d1\<rparr>) \<longrightarrow>
        vibrations (onUpdate d1 st) = vibrations st \<and> isLocked (onUpdate d1 st)) \<and>
     (\<not> isLocked st \<and>
      isAligned target (st\<lparr>currentHeading := data_heading d1, currentPitch := data_pitch d1\<rparr>) \<and>
      \<not> isAligned target (st\<lparr>currentHeading := data_heading d2, currentPitch := data_pitch d2\<rparr>) \<and>
      isAligned target (st\<lparr>currentHeading := data_heading d3, currentPitch := data_pitch d3\<rparr>) \<longrightarrow>
        vibrations (onUpdate d1 st) = Suc (vibrations st) \<and>
        \<not> isLocked (onUpdate d2 (onUpdate d1 st)) \<and>
        vibrations (onUpdate d2 (onUpdate d1 st)) = Suc (vibrations st) \<and>
        vibrations (onUpdate d3 (onUpdate d2 (onUpdate d1 st))) = Suc (Suc (vibrations st)))"
proof -
  note one = onUpdate_active [OF tb scr]
  note two = onUpdate_active [OF one(3) one(4)]
  note three = onUpdate_active [OF two(3) two(4)]
  have step: "((vibrations (updatePointerUI st) = Suc (vibrations st)) =
        (isAligned target st \<and> \<not> isLocked st)) \<and>
     ((vibrations (updatePointerUI st) = vibrations st) =
        (\<not> (isAligned target st \<and> \<not> isLocked st))) \<and>
     isLocked (updatePointerUI st) = isAligned target st"
    using vib by (simp add: updatePointerUI_active [OF tb scr])
  have twice: "\<not> isLocked st \<and>
      isAligned target (st\<lparr>currentHeading := data_heading d1, currentPitch := data_pitch d1\<rparr>) \<and>
      isAligned target (st\<lparr>currentHeading := data_heading d2, currentPitch := data_pitch d2\<rparr>) \<longrightarrow>
        vibrations (onUpdate d1 st) = Suc (vibrations st) \<and>
        vibrations (onUpdate d2 (onUpdate d1 st)) = Suc (vibrations st)"
    using vib by (simp add: one two isAligned_after_onUpdate)
  have stay: "isLocked st \<and>
      isAligned target (st\<lparr>currentHeading := data_heading d1, currentPitch := data_pitch d1\<rparr>) \<longrightarrow>
        vibrations (onUpdate d1 st) = vibrations st \<and> isLocked (onUpdate d1 st)"
    by (simp add: one)
  have again: "\<not> isLocked st \<and>
      isAligned target (st\<lparr>currentHeading := data_heading d1, currentPitch := data_pitch d1\<rparr>) \<and>
      \<not> isAligned target (st\<lparr>currentHeading := data_heading d2, currentPitch := data_pitch d2\<rparr>) \<and>
      isAligned target (st\<lparr>currentHeading := data_heading d3, currentPitch := data_pitch d3\<rparr>) \<longrightarrow>
        vibrations (onUpdate d1 st) = Suc (vibrations st) \<and>
        \<not> isLocked (onUpdate d2 (onUpdate d1 st)) \<and>
        vibrations (onUpdate d2 (onUpdate d1 st)) = Suc (vibrations st) \<and>
        vibrations (onUpdate d3 (onUpdate d2 (onUpdate d1 st))) = Suc (Suc (vibrations st))"
    using vib by (simp add: one two three isAligned_after_onUpdate)
  from step twice stay again show ?thesis by blast
qed

theorem lock_edge_one_shot_witness:
  "targetBody (startTracking jupiter appState0) = Some jupiter \<and>
   activeScreen (startTracking jupiter appState0) = PointerScreen \<and>
   canVibrate (startTracking jupiter appState0) \<and>
   \<not> isLocked (startTracking jupiter appState0) \<and>
   isAligned jupiter ((startTracking jupiter appState0)
      \<lparr>currentHeading := data_heading at_120_40, currentPitch := data_pitch at_120_40\<rparr>) \<and>
   \<not> isAligned jupiter ((startTracking jupiter appState0)
      \<lparr>currentHeading := data_heading far_away, currentPitch := data_pitch far_away\<rparr>) \<and>
   vibrations (onUpdate at_120_40 (startTracking jupiter appState0)) = 1 \<and>
   vibrations (onUpdate at_120_40 (onUpdate at_120_40 (startTracking jupiter appState0))) = 1 \<and>
   vibrations (onUpdate at_120_40 (onUpdate far_away
      (onUpdate at_120_40 (startTracking jupiter appState0)))) = 2"
proof -
  have h: "targetBody (startTracking jupiter appState0) = Some jupiter"
    "activeScreen (startTracking jupiter appState0) = PointerScreen"
    "canVibrate (startTracking jupiter appState0)"
    "\<not> isLocked (startTracking jupiter appState0)"
    "vibrations (startTracking jupiter appState0) = 0"
    "isAligned jupiter ((startTracking jupiter appState0)
      \<lparr>currentHeading := data_heading at_120_40, currentPitch := data_pitch at_120_40\<rparr>)"
    "\<not> isAligned jupiter ((startTracking jupiter appState0)
      \<lparr>currentHeading := data_heading far_away, currentPitch := data_pitch far_away\<rparr>)"
    by (simp_all add: scenario_defs wrap180_id)
  show ?thesis
    using lock_edge_one_shot [OF h(1) h(2) h(3), of at_120_40 at_120_40 far_away] h
      lock_edge_one_shot [OF h(1) h(2) h(3), of at_120_40 far_away at_120_40]
    by simp
qed

text \<open>
  C4 (amended). \<^verbatim>\<open>startTracking\<close> replaces the target, shows the pointer screen and
  evaluates the alignment once, without resetting \<^verbatim>\<open>isLocked\<close> first. After
  it the flag is true exactly when the new target is aligned at the current
  heading and pitch, and that evaluation requests the pulse exactly when the new
  target is aligned, the flag was false before the call and the platform can
  vibrate. When the new target is not aligned at selection, the flag is false
  afterwards and the first aligned evaluation requests the pulse.
\<close>

theorem startTracking_lock_flag:
  "targetBody (startTracking b st) = Some b \<and>
   activeScreen (startTracking b st) = PointerScreen \<and>
   isLocked (startTracking b st) = isAligned b st \<and>
   vibrations (startTracking b st) =
     (if isAligned b st \<and> \<not> isLocked st \<and> canVibrate st
      then Suc (vibrations st) else vibrations st) \<and>
   (\<not> isAligned b st \<and> canVibrate st \<and>
    isAligned b (st\<lparr>currentHeading := data_heading d, currentPitch := data_pitch d\<rparr>) \<longrightarrow>
      \<not> isLocked (startTracking b st) \<and>
      vibrations (onUpdate d (startTracking b st)) = Suc (vibrations st))"
proof -
  let ?st = "(showScreen PointerScreen (st\<lparr>targetBody := Some b\<rparr>))\<lparr>targetName := name b\<rparr>"
  have tb: "targetBody ?st = Some b" and scr: "activeScreen ?st = PointerScreen"
    by (simp_all add: showScreen_def)
  have al: "isAligned b ?st = isAligned b st"
    by (rule isAligned_fields) (simp_all add: showScreen_def)
  note start = updatePointerUI_active [OF tb scr, folded startTracking_def]
  have al': "isAligned b ((startTracking b st)\<lparr>currentHeading := h, currentPitch := p\<rparr>) =
             isAligned b (st\<lparr>currentHeading := h, currentPitch := p\<rparr>)" for h p
    by (rule isAligned_fields) simp_all
  have flds: "isLocked ?st = isLocked st" "canVibrate ?st = canVibrate st"
    "vibrations ?st = vibrations st"
    by (simp_all add: showScreen_def)
  note nxt = onUpdate_active [OF start(3) start(4)]
  show ?thesis
    by (simp add: start nxt al al' flds)
qed

theorem startTracking_lock_flag_witness:
  "\<not> isAligned jupiter appState0 \<and> canVibrate appState0 \<and>
   isAligned jupiter (appState0\<lparr>currentHeading := data_heading at_120_40,
                                currentPitch := data_pitch at_120_40\<rparr>) \<and>
   \<not> isLocked (startTracking jupiter appState0) \<and>
   vibrations (onUpdate at_120_40 (startTracking jupiter appState0)) = Suc (vibrations appState0)"
proof -
  have h: "\<not> isAligned jupiter appState0" "canVibrate appState0"
   "isAligned jupiter (appState0\<lparr>currentHeading := data_heading at_120_40,
                                currentPitch := data_pitch at_120_40\<rparr>)"
    by (simp_all add: scenario_defs wrap180_id)
  show ?thesis
    using startTracking_lock_flag [of jupiter appState0 at_120_40] h by simp
qed

text \<open>
  Selecting a target does not reset the flag. After a lock on Jupiter and the
  back button, \<^verbatim>\<open>isLocked\<close> is still true with no target; selecting the Moon, which
  is aligned at the same heading and pitch, leaves the flag true and requests no
  pulse for the new target.
\<close>

theorem startTracking_stale_lock:
  "isLocked locked_then_back \<and> targetBody locked_then_back = None \<and>
   isAligned moon locked_then_back \<and>
   isLocked (startTracking moon locked_then_back) \<and>
   vibrations (startTracking moon locked_then_back) = vibrations locked_then_back"
  by (simp add: scenario_defs wrap180_id)

section \<open>Orientation events\<close>

lemma angles_event_sel:
  "ev_alpha (angles_event a b g) = Some a"
  "ev_beta (angles_event a b g) = Some b"
  "ev_gamma (angles_event a b g) = Some g"
  "webkitCompassHeading (angles_event a b g) = None"
  by (simp_all add: angles_event_def)

text \<open>
  sensor.js drops a sample with a \<^verbatim>\<open>null\<close> angle: nothing is written and
  \<^verbatim>\<open>onUpdate\<close> is not called.
\<close>

lemma handleOrientation_rejects_null:
  "ev_alpha event = None \<or> ev_beta event = None \<or> ev_gamma event = None \<Longrightarrow>
   handleOrientation event this = (None, this)"
  by (simp add: handleOrientation_def)

text \<open>
  An accepted sample in sensor.js: the heading moves towards the calibrated
  heading by \<^verbatim>\<open>smoothAngle\<close>, the pitch is the low-pass filter of
  \<open>beta - 90 + pitchOffset\<close>.
\<close>

lemma handleOrientation_accepts:
  "handleOrientation (angles_event a b g) this =
     (Some \<lparr>data_heading = smoothAngle this (heading this)
                (js_rem (js_rem (360 - a + 360) 360 + calibrationOffset this + 360) 360),
             data_pitch = pitch this * smoothing this
                + (rawPitch b + pitchOffset this) * (1 - smoothing this),
             data_raw = (Some a, Some b, Some g)\<rparr>,
      this\<lparr>heading := smoothAngle this (heading this)
                (js_rem (js_rem (360 - a + 360) 360 + calibrationOffset this + 360) 360),
           pitch := pitch this * smoothing this
                + (rawPitch b + pitchOffset this) * (1 - smoothing this),
           alpha := a, beta := b, gamma := g\<rparr>)"
  by (simp add: handleOrientation_def angles_event_sel compass_truthy_def Let_def)

lemma handleOrientation_keeps:
  "smoothing (snd (handleOrientation event this)) = smoothing this"
  "pitchOffset (snd (handleOrientation event this)) = pitchOffset this"
  "calibrationOffset (snd (handleOrientation event this)) = calibrationOffset this"
  "localStorage (snd (handleOrientation event this)) = localStorage this"
  by (simp_all add: handleOrientation_def Let_def)

text \<open>
  C3. The handler of sensor.js rejects the event whose angles are all \<^verbatim>\<open>null\<close> and
  leaves the manager as it was. The handler of main.js has no such check: on
  the same event, from a fresh manager, it reads \<^verbatim>\<open>null\<close> as 0, takes the pitch
  sample \<open>90 - 0\<close> and moves the smoothed pitch from 0 to 13.5, which it also
  hands to \<^verbatim>\<open>onUpdate\<close>. The later main.js does the same with the sample \<open>0 - 90\<close>
  and moves the pitch to -13.5.
\<close>

theorem main_handler_takes_null_sample:
  "ev_alpha null_event = None \<and> ev_beta null_event = None \<and> ev_gamma null_event = None \<and>
   handleOrientation null_event (new_SensorManager Map.empty)
     = (None, new_SensorManager Map.empty) \<and>
   m_pitch (new_main_SensorManager Map.empty) = 0 \<and>
   m_pitch (snd (main_handleOrientation null_event (new_main_SensorManager Map.empty)))
     = 27 / 2 \<and>
   data_pitch (fst (main_handleOrientation null_event (new_main_SensorManager Map.empty)))
     = 27 / 2 \<and>
   l_pitch (new_later_SensorManager Map.empty) = 0 \<and>
   l_pitch (snd (later_handleOrientation null_event (new_later_SensorManager Map.empty)))
     = - 27 / 2"
  by (simp add: null_event_def handleOrientation_def main_handleOrientation_def
      later_handleOrientation_def new_main_SensorManager_def new_later_SensorManager_def
      main_pitch_def later_pitch_def to_number_def stored_or_zero_def Let_def)

text \<open>
  The pitch of sensor.js: \<open>beta - 90\<close>, which is 0 upright (\<open>beta = 90\<close>), 90 at
  \<open>beta = 180\<close>, -90 at \<open>beta = 0\<close>, and grows with \<open>beta\<close>.
\<close>

lemma rawPitch_convention:
  "rawPitch b = b - 90 \<and> rawPitch 90 = 0 \<and> rawPitch 180 = 90 \<and> rawPitch 0 = - 90 \<and>
   (rawPitch b < rawPitch b') = (b < b')"
  by (simp add: rawPitch_def)

text \<open>
  C2. At \<open>beta = 45\<close> the pitch sample of sensor.js, and of the later main.js, is
  \<open>45 - 90 = -45\<close>, and a fresh manager of sensor.js moves its pitch to -6.75. main.js computes \<open>90 - beta\<close> instead:
  its sample is +45 and a fresh manager moves its pitch to +6.75, the opposite
  sign.
\<close>

theorem main_pitch_sign:
  "rawPitch 45 = - 45 \<and> later_pitch (Some 45) = - 45 \<and> main_pitch (Some 45) = 45 \<and>
   pitch (snd (handleOrientation (angles_event 0 45 0) (new_SensorManager Map.empty)))
     = - 27 / 4 \<and>
   m_pitch (snd (main_handleOrientation (angles_event 0 45 0)
                   (new_main_SensorManager Map.empty)))
     = 27 / 4"
  by (simp add: handleOrientation_accepts rawPitch_def main_pitch_def later_pitch_def
      to_number_def main_handleOrientation_def new_main_SensorManager_def
      new_SensorManager_def stored_or_zero_def angles_event_sel Let_def)

section \<open>Range of the smoothed state\<close>

lemma smoothAngle_range:
  assumes "0 \<le> smoothing this" "smoothing this \<le> 1" "0 \<le> c"
  shows "0 \<le> smoothAngle this c t \<and> smoothAngle this c t < 360"
proof -
  define d where "d = wrap180 (t - c)"
  have rng: "- 180 \<le> d" "d \<le> 180"
    unfolding d_def using wrap180_range by auto
  have r: "0 \<le> 1 - smoothing this" "1 - smoothing this \<le> 1"
    using assms by simp_all
  have "\<bar>d * (1 - smoothing this)\<bar> = \<bar>d\<bar> * (1 - smoothing this)"
    using r by (simp add: abs_mult)
  also have "\<dots> \<le> 180 * 1"
    using rng r by (intro mult_mono) simp_all
  finally have "- 180 \<le> d * (1 - smoothing this)" by simp
  then have "0 \<le> c + d * (1 - smoothing this) + 360"
    using assms by simp
  then show ?thesis
    unfolding smoothAngle_def Let_def d_def by (rule js_rem_nonneg_range)
qed

lemma low_pass_range:
  fixes p r s :: real
  assumes "0 \<le> s" "s \<le> 1" "- 90 \<le> p" "p \<le> 90" "- 90 \<le> r" "r \<le> 90"
  shows "- 90 \<le> p * s + r * (1 - s) \<and> p * s + r * (1 - s) \<le> 90"
proof -
  have s': "0 \<le> 1 - s" using assms by simp
  have a1: "p * s \<le> 90 * s"
    using assms(4) assms(1) by (rule mult_right_mono)
  have a2: "(- 90) * s \<le> p * s"
    using assms(3) assms(1) by (rule mult_right_mono)
  have b1: "r * (1 - s) \<le> 90 * (1 - s)"
    using assms(6) s' by (rule mult_right_mono)
  have b2: "(- 90) * (1 - s) \<le> r * (1 - s)"
    using assms(5) s' by (rule mult_right_mono)
  from a1 a2 b1 b2 show ?thesis by (simp add: algebra_simps)
qed

lemma handleOrientation_heading_range:
  assumes "0 \<le> smoothing this" "smoothing this \<le> 1" "0 \<le> heading this" "heading this < 360"
  shows "0 \<le> heading (snd (handleOrientation event this)) \<and>
         heading (snd (handleOrientation event this)) < 360"
  using assms smoothAngle_range [OF assms(1) assms(2) assms(3)]
  by (simp add: handleOrientation_def Let_def)

lemma handleOrientation_pitch_range:
  assumes "0 \<le> smoothing this" "smoothing this \<le> 1" "- 90 \<le> pitch this" "pitch this \<le> 90"
    and "\<And>b. ev_alpha event \<noteq> None \<Longrightarrow> ev_beta event = Some b \<Longrightarrow> ev_gamma event \<noteq> None \<Longrightarrow>
           - 90 \<le> rawPitch b + pitchOffset this \<and> rawPitch b + pitchOffset this \<le> 90"
  shows "- 90 \<le> pitch (snd (handleOrientation event this)) \<and>
         pitch (snd (handleOrientation event this)) \<le> 90"
proof (cases "ev_alpha event = None \<or> ev_beta event = None \<or> ev_gamma event = None")
  case True
  then show ?thesis using assms by (simp add: handleOrientation_def)
next
  case False
  then obtain b where b: "ev_beta event = Some b" by auto
  from False b assms(5) have "- 90 \<le> rawPitch b + pitchOffset this"
    "rawPitch b + pitchOffset this \<le> 90"
    by auto
  from low_pass_range [OF assms(1-4) this] False b show ?thesis
    by (auto simp add: handleOrientation_def Let_def)
qed

lemma handle_all_heading_range:
  assumes "0 \<le> smoothing this" "smoothing this \<le> 1" "0 \<le> heading this" "heading this < 360"
  shows "0 \<le> heading (handle_all events this) \<and> heading (handle_all events this) < 360"
  using assms
proof (induction events arbitrary: this)
  case Nil
  then show ?case by simp
next
  case (Cons event events)
  have "0 \<le> heading (snd (handleOrientation event this)) \<and>
        heading (snd (handleOrientation event this)) < 360"
    using Cons.prems by (intro handleOrientation_heading_range)
  with Cons.prems show ?case
    by (simp add: Cons.IH handleOrientation_keeps)
qed

lemma handle_all_pitch_range:
  assumes "0 \<le> smoothing this" "smoothing this \<le> 1" "- 90 \<le> pitch this" "pitch this \<le> 90"
    and "\<forall>e\<in>set events. \<forall>b. ev_alpha e \<noteq> None \<and> ev_beta e = Some b \<and> ev_gamma e \<noteq> None \<longrightarrow>
           - 90 \<le> rawPitch b + pitchOffset this \<and> rawPitch b + pitchOffset this \<le> 90"
  shows "- 90 \<le> pitch (handle_all events this) \<and> pitch (handle_all events this) \<le> 90"
  using assms
proof (induction events arbitrary: this)
  case Nil
  then show ?case by simp
next
  case (Cons event events)
  have step: "- 90 \<le> pitch (snd (handleOrientation event this)) \<and>
        pitch (snd (handleOrientation event this)) \<le> 90"
    using Cons.prems by (intro handleOrientation_pitch_range) auto
  have rest: "\<forall>e\<in>set events. \<forall>b. ev_alpha e \<noteq> None \<and> ev_beta e = Some b \<and> ev_gamma e \<noteq> None \<longrightarrow>
           - 90 \<le> rawPitch b + pitchOffset (snd (handleOrientation event this)) \<and>
           rawPitch b + pitchOffset (snd (handleOrientation event this)) \<le> 90"
    using Cons.prems(5) by (simp add: handleOrientation_keeps)
  have "- 90 \<le> pitch (handle_all events (snd (handleOrientation event this))) \<and>
        pitch (handle_all events (snd (handleOrientation event this))) \<le> 90"
    using Cons.prems(1,2) step rest
    by (intro Cons.IH) (simp_all add: handleOrientation_keeps)
  then show ?case by simp
qed

text \<open>
  C5 (amended). Start from a new manager over any stored offsets and handle any
  sequence of events. The stored heading is in [0,360) throughout. The stored
  pitch is not clamped: it is a weighted mean of the previous pitch and
  \<open>beta - 90 + pitchOffset\<close>, so it is in [-90,90] when every accepted sample
  has \<open>beta - 90 + pitchOffset\<close> in [-90,90].
\<close>

theorem smoothed_state_bounds:
  "0 \<le> heading (handle_all events (new_SensorManager storage)) \<and>
   heading (handle_all events (new_SensorManager storage)) < 360 \<and>
   ((\<forall>e\<in>set events. \<forall>b. ev_alpha e \<noteq> None \<and> ev_beta e = Some b \<and> ev_gamma e \<noteq> None \<longrightarrow>
        - 90 \<le> rawPitch b + stored_or_zero storage ''stars_pitch_offset'' \<and>
        rawPitch b + stored_or_zero storage ''stars_pitch_offset'' \<le> 90) \<longrightarrow>
    - 90 \<le> pitch (handle_all events (new_SensorManager storage)) \<and>
    pitch (handle_all events (new_SensorManager storage)) \<le> 90)"
proof -
  let ?sm = "new_SensorManager storage"
  have init: "0 \<le> smoothing ?sm" "smoothing ?sm \<le> 1" "0 \<le> heading ?sm"
    "heading ?sm < 360" "- 90 \<le> pitch ?sm" "pitch ?sm \<le> 90"
    "pitchOffset ?sm = stored_or_zero storage ''stars_pitch_offset''"
    by (simp_all add: new_SensorManager_def)
  have hd: "0 \<le> heading (handle_all events ?sm) \<and> heading (handle_all events ?sm) < 360"
    using init(1-4) by (rule handle_all_heading_range)
  have pt: "- 90 \<le> pitch (handle_all events ?sm) \<and> pitch (handle_all events ?sm) \<le> 90"
    if "\<forall>e\<in>set events. \<forall>b. ev_alpha e \<noteq> None \<and> ev_beta e = Some b \<and> ev_gamma e \<noteq> None \<longrightarrow>
        - 90 \<le> rawPitch b + stored_or_zero storage ''stars_pitch_offset'' \<and>
        rawPitch b + stored_or_zero storage ''stars_pitch_offset'' \<le> 90"
    using init(1,2,5,6) that unfolding init(7) [symmetric]
    by (rule handle_all_pitch_range)
  from hd pt show ?thesis by blast
qed

theorem smoothed_state_bounds_witness:
  "(- 90 \<le> rawPitch 45 + stored_or_zero Map.empty ''stars_pitch_offset'' \<and>
    rawPitch 45 + stored_or_zero Map.empty ''stars_pitch_offset'' \<le> 90) \<and>
   0 \<le> heading (handle_all [angles_event 10 45 0] (new_SensorManager Map.empty)) \<and>
   heading (handle_all [angles_event 10 45 0] (new_SensorManager Map.empty)) < 360 \<and>
   - 90 \<le> pitch (handle_all [angles_event 10 45 0] (new_SensorManager Map.empty)) \<and>
   pitch (handle_all [angles_event 10 45 0] (new_SensorManager Map.empty)) \<le> 90"
  using smoothed_state_bounds [of "[angles_event 10 45 0]" Map.empty]
  by (simp add: angles_event_sel rawPitch_def stored_or_zero_def)

text \<open>
  Without that condition the pitch leaves [-90,90]: with no stored offsets, three
  samples with \<open>beta = -180\<close> bring the pitch of a new manager to -104.18625.
\<close>

theorem pitch_leaves_range:
  "pitch (handle_all [angles_event 0 (- 180) 0, angles_event 0 (- 180) 0, angles_event 0 (- 180) 0]
            (new_SensorManager Map.empty)) < - 90"
  by (simp add: handleOrientation_accepts rawPitch_def new_SensorManager_def stored_or_zero_def)

section \<open>Convergence of the smoothing\<close>

lemma smooth_step:
  assumes "0 \<le> smoothing this" "smoothing this < 1"
  shows "circ_dist (smoothAngle this c t) t = smoothing this * circ_dist c t"
proof -
  define d where "d = wrap180 (t - c)"
  define s where "s = smoothing this"
  obtain m :: int where m: "d = t - c + 360 * of_int m"
    unfolding d_def using wrap180_ex by blast
  obtain K :: int where K: "smoothAngle this c t = c + d * (1 - s) + 360 + 360 * of_int K"
    unfolding smoothAngle_def Let_def d_def s_def using js_rem_ex by blast
  have rng: "- 180 \<le> d" "d \<le> 180"
    unfolding d_def using wrap180_range by auto
  have abs_d: "\<bar>d\<bar> \<le> 180" using rng by simp
  have "\<bar>d * s\<bar> = \<bar>d\<bar> * s" using assms by (simp add: abs_mult s_def)
  also have "\<dots> \<le> 180 * s" using abs_d assms by (simp add: s_def mult_right_mono)
  also have "\<dots> < 180" using assms by (simp add: s_def)
  finally have small: "- 180 < d * s" "d * s < 180" by auto
  have "t - smoothAngle this c t = d * s + 360 * of_int (- m - 1 - K)"
    unfolding K using m by (simp add: algebra_simps)
  then have "wrap180 (t - smoothAngle this c t) = d * s"
    using wrap180_unique [OF small, of "- m - 1 - K"] by (simp only:)
  then show ?thesis
    unfolding circ_dist_def using assms by (simp add: abs_mult d_def s_def mult.commute)
qed

lemma smooth_iter:
  assumes "0 \<le> smoothing this" "smoothing this < 1"
  shows "circ_dist (((\<lambda>c. smoothAngle this c t) ^^ n) c) t = smoothing this ^ n * circ_dist c t"
proof (induction n)
  case 0
  show ?case by simp
next
  case (Suc n)
  show ?case
    by (simp add: smooth_step [OF assms] Suc)
qed

lemma circ_dist_nonneg: "0 \<le> circ_dist c t"
  by (simp add: circ_dist_def)

text \<open>
  \<open>circ_dist\<close> is the least distance between the two headings over all turns.
\<close>

lemma circ_dist_least: "circ_dist c t \<le> \<bar>t - c + 360 * of_int k\<bar>"
proof -
  define y where "y = wrap180 (t - c)"
  obtain m :: int where m: "y = t - c + 360 * of_int m"
    unfolding y_def using wrap180_ex by blast
  have ry: "\<bar>y\<bar> \<le> 180"
    unfolding y_def using wrap180_range [of "t - c"] by linarith
  have eq: "t - c + 360 * of_int k = y + 360 * of_int (k - m)"
    using m by (simp add: algebra_simps)
  show ?thesis
  proof (cases "k = m")
    case True
    then show ?thesis using eq by (simp add: circ_dist_def y_def)
  next
    case False
    then have "1 \<le> \<bar>k - m\<bar>" by simp
    then have "(1::real) \<le> \<bar>of_int (k - m)\<bar>"
      by (metis of_int_1_le_iff of_int_abs)
    then have "360 \<le> \<bar>360 * (of_int (k - m) :: real)\<bar>"
      by (simp add: abs_mult)
    then have "180 \<le> \<bar>y + 360 * of_int (k - m)\<bar>"
      using ry by linarith
    then show ?thesis
      using ry eq by (simp add: circ_dist_def y_def)
  qed
qed

lemma low_pass_step:
  fixes p r s :: real
  assumes "0 \<le> s"
  shows "\<bar>p * s + r * (1 - s) - r\<bar> = s * \<bar>p - r\<bar>"
proof -
  have "p * s + r * (1 - s) - r = s * (p - r)"
    by (simp add: algebra_simps)
  then show ?thesis using assms by (simp add: abs_mult)
qed

text \<open>
  C9. With the smoothing factor in (0,1), one \<^verbatim>\<open>smoothAngle\<close> step towards a fixed
  target multiplies the circular distance to the target by the smoothing factor;
  after \<open>n\<close> steps the distance is the factor to the power \<open>n\<close> times the initial
  distance; it never increases from one step to the next, and it tends to 0.
  This holds for every current value and every target. The handler applies
  exactly this step to the heading, and its pitch filter multiplies the distance
  to the pitch sample by the same factor.
\<close>

theorem smoothing_converges:
  assumes pos: "0 < smoothing this" and less: "smoothing this < 1"
  shows
    "circ_dist (smoothAngle this current target) target
       = smoothing this * circ_dist current target \<and>
     circ_dist (((\<lambda>c. smoothAngle this c target) ^^ n) current) target
       = smoothing this ^ n * circ_dist current target \<and>
     circ_dist (((\<lambda>c. smoothAngle this c target) ^^ Suc n) current) target
       \<le> circ_dist (((\<lambda>c. smoothAngle this c target) ^^ n) current) target \<and>
     (\<lambda>k. circ_dist (((\<lambda>c. smoothAngle this c target) ^^ k) current) target)
       \<longlonglongrightarrow> 0 \<and>
     heading (snd (handleOrientation (angles_event a b g) this))
       = smoothAngle this (heading this)
           (js_rem (js_rem (360 - a + 360) 360 + calibrationOffset this + 360) 360) \<and>
     \<bar>pitch (snd (handleOrientation (angles_event a b g) this)) - (rawPitch b + pitchOffset this)\<bar>
       = smoothing this * \<bar>pitch this - (rawPitch b + pitchOffset this)\<bar>"
proof -
  have s0: "0 \<le> smoothing this" using pos by simp
  note it = smooth_iter [OF s0 less]
  have one: "circ_dist (smoothAngle this current target) target
       = smoothing this * circ_dist current target"
    by (rule smooth_step [OF s0 less])
  have "smoothing this ^ Suc n * circ_dist current target
          \<le> smoothing this ^ n * circ_dist current target"
  proof -
    have "smoothing this ^ Suc n \<le> smoothing this ^ n"
      using s0 less by (simp add: mult_left_le_one_le)
    then show ?thesis
      by (rule mult_right_mono) (rule circ_dist_nonneg)
  qed
  then have mono: "circ_dist (((\<lambda>c. smoothAngle this c target) ^^ Suc n) current) target
       \<le> circ_dist (((\<lambda>c. smoothAngle this c target) ^^ n) current) target"
    by (simp only: it)
  have "(\<lambda>k. smoothing this ^ k) \<longlonglongrightarrow> 0"
    using s0 less by (rule LIMSEQ_realpow_zero)
  then have "(\<lambda>k. smoothing this ^ k * circ_dist current target) \<longlonglongrightarrow> 0"
    by (rule tendsto_mult_left_zero)
  then have lim: "(\<lambda>k. circ_dist (((\<lambda>c. smoothAngle this c target) ^^ k) current) target)
       \<longlonglongrightarrow> 0"
    by (simp only: it)
  have hd: "heading (snd (handleOrientation (angles_event a b g) this))
       = smoothAngle this (heading this)
           (js_rem (js_rem (360 - a + 360) 360 + calibrationOffset this + 360) 360)"
    by (simp add: handleOrientation_accepts)
  have pt: "\<bar>pitch (snd (handleOrientation (angles_event a b g) this))
              - (rawPitch b + pitchOffset this)\<bar>
       = smoothing this * \<bar>pitch this - (rawPitch b + pitchOffset this)\<bar>"
    using low_pass_step [OF s0] by (simp add: handleOrientation_accepts)
  from one it mono lim hd pt show ?thesis by blast
qed

theorem smoothing_converges_witness:
  "0 < smoothing (new_SensorManager Map.empty) \<and> smoothing (new_SensorManager Map.empty) < 1 \<and>
   circ_dist 350 10 = 20 \<and>
   circ_dist (smoothAngle (new_SensorManager Map.empty) 350 10) 10 = 17 \<and>
   (\<lambda>k. circ_dist (((\<lambda>c. smoothAngle (new_SensorManager Map.empty) c 10) ^^ k) 350) 10)
     \<longlonglongrightarrow> 0"
proof -
  have h: "0 < smoothing (new_SensorManager Map.empty)" "smoothing (new_SensorManager Map.empty) < 1"
    by (simp_all add: new_SensorManager_def)
  have w: "wrap180 (- 340) = 20"
    using wrap180_below [of "- 340"] wrap180_id [of 20] by simp
  have d: "circ_dist 350 10 = 20"
    by (simp add: circ_dist_def w)
  have s: "smoothing (new_SensorManager Map.empty) = 17 / 20"
    by (simp add: new_SensorManager_def)
  show ?thesis
    using smoothing_converges [OF h, of 350 10 0 0 45 0] h d s by simp
qed

end
